theory Spec2Isabelle
  imports Complex_Main "HOL-Library.Char_ord" "HOL-Library.List_Lexorder"
begin

section \<open>Data model\<close>

text \<open>
  A pandas DataFrame is an ordered list of named columns over a common row index.
  Each column has one dtype; the three kinds the program distinguishes are
  numeric (\<open>np.number\<close>), datetime64 and object (text).  A missing cell (NaN, NaT,
  None) is \<open>None\<close>.  Floating-point numbers are idealised as reals, timestamps
  as integers.  The row count is kept beside the columns, because a frame without
  columns still has an index (\<open>shape[0]\<close>).
\<close>

datatype coldata =
    NumCol "real option list"
  | TimeCol "int option list"
  | CatCol "string option list"

type_synonym column = "string \<times> coldata"

datatype dataframe = DataFrame (nrows: nat) (cols: "column list")

record etl_stats =
  duplicates_removed :: nat
  missing_imputed :: nat
  outliers_handled :: nat

fun clen :: "coldata \<Rightarrow> nat" where
  "clen (NumCol xs) = length xs"
| "clen (TimeCol xs) = length xs"
| "clen (CatCol xs) = length xs"

fun is_number :: "coldata \<Rightarrow> bool" where
  "is_number (NumCol xs) = True"
| "is_number (TimeCol xs) = False"
| "is_number (CatCol xs) = False"

text \<open>The table invariant: unique column names, every column as long as the index.\<close>

definition wf :: "dataframe \<Rightarrow> bool" where
  "wf df = (distinct (map fst (cols df)) \<and> list_all (\<lambda>c. clen (snd c) = nrows df) (cols df))"

text \<open>\<open>df.select_dtypes(include=['number'])\<close>: the numeric columns, same index.\<close>

definition select_number :: "dataframe \<Rightarrow> dataframe" where
  "select_number df = DataFrame (nrows df) (filter (\<lambda>c. is_number (snd c)) (cols df))"

section \<open>Health scorer (stats.py, calculate_health_score)\<close>

text \<open>
  Rounding to the nearest tenth in exact arithmetic, a tie going to the even
  neighbour.  Python's \<open>round(x, 1)\<close> rounds the double it is given, which
  stands a little beside the exact score, so at an exact tie it may go either
  way; the float reading of the scorer further down takes the rounding as a
  parameter.  The exact reading below serves for the bounds on the penalties.
\<close>

definition round_half_even :: "real \<Rightarrow> int" where
  "round_half_even x =
     (let f = \<lfloor>x\<rfloor>; d = x - of_int f
      in if d < 1 / 2 then f else if 1 / 2 < d then f + 1
         else if even f then f else f + 1)"

definition py_round1 :: "real \<Rightarrow> real" where
  "py_round1 x = of_int (round_half_even (x * 10)) / 10"

definition missing_penalty :: "etl_stats \<Rightarrow> nat \<Rightarrow> real" where
  "missing_penalty st total_cells = (real (missing_imputed st) / real total_cells) * 40"

definition duplicate_penalty :: "etl_stats \<Rightarrow> nat \<Rightarrow> real" where
  "duplicate_penalty st total_rows = (real (duplicates_removed st) / real total_rows) * 30"

definition outlier_penalty :: "etl_stats \<Rightarrow> nat \<Rightarrow> real" where
  "outlier_penalty st numeric_cells =
     (if numeric_cells > 0 then (real (outliers_handled st) / real numeric_cells) * 30 else 0)"

definition numeric_cells :: "dataframe \<Rightarrow> nat" where
  "numeric_cells df = nrows (select_number df) * length (cols (select_number df))"

definition calculate_health_score :: "dataframe \<Rightarrow> dataframe \<Rightarrow> etl_stats \<Rightarrow> real" where
  "calculate_health_score df_original df_cleaned st =
     (let total_cells = nrows df_original * length (cols df_original);
          total_rows = nrows df_original
      in if total_cells = 0 \<or> total_rows = 0 then 0
         else let score = 100 - (missing_penalty st total_cells
                                 + duplicate_penalty st total_rows
                                 + outlier_penalty st (numeric_cells df_original))
              in max 0 (min 100 (py_round1 score)))"

text \<open>A value held to a closed interval.\<close>

definition clamp :: "real \<Rightarrow> real \<Rightarrow> real \<Rightarrow> real" where
  "clamp x lo hi = (if x < lo then lo else if hi < x then hi else x)"

section \<open>pandas operations used by the cleansing engine\<close>

text \<open>A cell of any dtype, for comparing whole rows.\<close>

datatype cell = NumV "real option" | TimeV "int option" | CatV "string option"

fun cells :: "coldata \<Rightarrow> cell list" where
  "cells (NumCol xs) = map NumV xs"
| "cells (TimeCol xs) = map TimeV xs"
| "cells (CatCol xs) = map CatV xs"

definition rows :: "dataframe \<Rightarrow> cell list list" where
  "rows df = map (\<lambda>i. map (\<lambda>c. cells (snd c) ! i) (cols df)) [0..<nrows df]"

text \<open>
  \<open>DataFrame.duplicated(keep='first')\<close>: a row is marked when an equal row came
  before it; missing cells compare equal to each other.
\<close>

fun duplicated_from :: "'a list \<Rightarrow> 'a list \<Rightarrow> bool list" where
  "duplicated_from seen [] = []"
| "duplicated_from seen (r # rs) = (r \<in> set seen) # duplicated_from (r # seen) rs"

definition duplicated :: "dataframe \<Rightarrow> bool list" where
  "duplicated df = duplicated_from [] (rows df)"

text \<open>Boolean indexing \<open>xs[keep]\<close>.\<close>

definition bool_index :: "bool list \<Rightarrow> 'a list \<Rightarrow> 'a list" where
  "bool_index keep xs = map snd (filter fst (zip keep xs))"

fun col_index :: "bool list \<Rightarrow> coldata \<Rightarrow> coldata" where
  "col_index keep (NumCol xs) = NumCol (bool_index keep xs)"
| "col_index keep (TimeCol xs) = TimeCol (bool_index keep xs)"
| "col_index keep (CatCol xs) = CatCol (bool_index keep xs)"

text \<open>\<open>df.empty\<close>: some axis has length zero.\<close>

definition empty_df :: "dataframe \<Rightarrow> bool" where
  "empty_df df = (nrows df = 0 \<or> cols df = [])"

text \<open>
  \<open>df.drop_duplicates()\<close>: an empty frame is copied as it is, otherwise the rows
  not marked by \<open>duplicated\<close> are kept, in order.
\<close>

definition drop_duplicates :: "dataframe \<Rightarrow> dataframe" where
  "drop_duplicates df =
     (if empty_df df then df
      else let keep = map Not (duplicated df)
           in DataFrame (length (filter id keep))
                (map (\<lambda>c. (fst c, col_index keep (snd c))) (cols df)))"

text \<open>
  \<open>pd.to_datetime(s, errors='ignore')\<close> on an object column: when every value
  present parses, the column becomes datetime64 (missing stays missing); when
  some value does not parse, the input comes back unchanged.  The parser of a
  single value is a parameter.
\<close>

definition parses :: "(string \<Rightarrow> int option) \<Rightarrow> string option \<Rightarrow> bool" where
  "parses parse x = (case x of None \<Rightarrow> True | Some s \<Rightarrow> parse s \<noteq> None)"

definition to_datetime :: "(string \<Rightarrow> int option) \<Rightarrow> string option list \<Rightarrow> coldata" where
  "to_datetime parse xs =
     (if list_all (parses parse) xs then TimeCol (map (\<lambda>x. Option.bind x parse) xs)
      else CatCol xs)"

definition count_none :: "'a option list \<Rightarrow> nat" where
  "count_none xs = length (filter (\<lambda>x. x = None) xs)"

text \<open>\<open>s.isnull().sum()\<close>\<close>

fun isnull_sum :: "coldata \<Rightarrow> nat" where
  "isnull_sum (NumCol xs) = count_none xs"
| "isnull_sum (TimeCol xs) = count_none xs"
| "isnull_sum (CatCol xs) = count_none xs"

fun dropna :: "'a option list \<Rightarrow> 'a list" where
  "dropna [] = []"
| "dropna (None # xs) = dropna xs"
| "dropna (Some x # xs) = x # dropna xs"

text \<open>\<open>s.fillna(v)\<close>; filling with a missing value (NaN, NaT) changes nothing.\<close>

definition fillna :: "'a option \<Rightarrow> 'a option list \<Rightarrow> 'a option list" where
  "fillna v xs = map (\<lambda>x. case x of None \<Rightarrow> v | Some y \<Rightarrow> Some y) xs"

text \<open>\<open>s.median()\<close> skips missing values and is NaN when none is left.\<close>

definition median :: "real option list \<Rightarrow> real option" where
  "median xs =
     (let vs = sort (dropna xs); n = length vs
      in if n = 0 then None
         else if odd n then Some (vs ! (n div 2))
         else Some ((vs ! (n div 2 - 1) + vs ! (n div 2)) / 2))"

text \<open>
  \<open>s.mode()\<close>: the values present that occur most often, sorted ascending; empty
  when every value is missing.
\<close>

definition mode :: "'a::linorder option list \<Rightarrow> 'a list" where
  "mode xs =
     (let vs = dropna xs
      in if vs = [] then []
         else let max_count = Max (set (map (count_list vs) vs))
              in sort (filter (\<lambda>k. count_list vs k = max_count) (remdups vs)))"

text \<open>
  \<open>s.quantile(q)\<close> with the default linear interpolation over the sorted values
  present; NaN when there is none.
\<close>

definition quantile :: "real option list \<Rightarrow> real \<Rightarrow> real option" where
  "quantile xs q =
     (let vs = sort (dropna xs); n = length vs
      in if n = 0 then None
         else let h = real (n - 1) * q; lo = nat \<lfloor>h\<rfloor>; hi = min (lo + 1) (n - 1)
              in Some (vs ! lo + (h - real lo) * (vs ! hi - vs ! lo)))"

section \<open>Cleansing engine (etl.py, perform_etl)\<close>

text \<open>Step 2: object columns are offered to the date parser.\<close>

fun convert_col :: "(string \<Rightarrow> int option) \<Rightarrow> coldata \<Rightarrow> coldata" where
  "convert_col parse (CatCol xs) = to_datetime parse xs"
| "convert_col parse d = d"

definition convert_datetimes :: "(string \<Rightarrow> int option) \<Rightarrow> dataframe \<Rightarrow> dataframe" where
  "convert_datetimes parse df =
     DataFrame (nrows df) (map (\<lambda>c. (fst c, convert_col parse (snd c))) (cols df))"

text \<open>
  Step 3: a column with missing cells adds their number to the running total and
  is filled: numeric with the median, datetime with the first mode or NaT, any
  other with the first mode or the text \<open>Missing\<close>.
\<close>

fun fill_col :: "coldata \<Rightarrow> coldata" where
  "fill_col (NumCol xs) = NumCol (fillna (median xs) xs)"
| "fill_col (TimeCol xs) =
     TimeCol (fillna (case mode xs of [] \<Rightarrow> None | m # ms \<Rightarrow> Some m) xs)"
| "fill_col (CatCol xs) =
     CatCol (fillna (case mode xs of [] \<Rightarrow> Some ''Missing'' | m # ms \<Rightarrow> Some m) xs)"

fun impute_loop :: "column list \<Rightarrow> nat \<Rightarrow> column list \<times> nat" where
  "impute_loop [] missing = ([], missing)"
| "impute_loop (c # cs) missing =
     (if isnull_sum (snd c) > 0
      then let r = impute_loop cs (missing + isnull_sum (snd c))
           in ((fst c, fill_col (snd c)) # fst r, snd r)
      else let r = impute_loop cs missing in (c # fst r, snd r))"

text \<open>
  Step 4, numeric columns only: the bounds \<open>Q1 - 1.5 IQR\<close> and \<open>Q3 + 1.5 IQR\<close>; a
  comparison with NaN is false, so a column without values has no bounds, no
  outliers and stays as it is.
\<close>

definition iqr_bounds :: "real option list \<Rightarrow> (real \<times> real) option" where
  "iqr_bounds xs =
     (case quantile xs (1 / 4) of None \<Rightarrow> None
      | Some q1 \<Rightarrow> (case quantile xs (3 / 4) of None \<Rightarrow> None
          | Some q3 \<Rightarrow> let iqr = q3 - q1 in Some (q1 - 3 / 2 * iqr, q3 + 3 / 2 * iqr)))"

definition is_outlier :: "real \<times> real \<Rightarrow> real option \<Rightarrow> bool" where
  "is_outlier b x = (case x of None \<Rightarrow> False | Some v \<Rightarrow> v < fst b \<or> snd b < v)"

definition outliers_count :: "real option list \<Rightarrow> nat" where
  "outliers_count xs =
     (case iqr_bounds xs of None \<Rightarrow> 0 | Some b \<Rightarrow> length (filter (is_outlier b) xs))"

definition cap_value :: "real \<times> real \<Rightarrow> real \<Rightarrow> real" where
  "cap_value b v = (let v1 = (if v < fst b then fst b else v) in if snd b < v1 then snd b else v1)"

definition cap :: "real option list \<Rightarrow> real option list" where
  "cap xs = (case iqr_bounds xs of None \<Rightarrow> xs | Some b \<Rightarrow> map (map_option (cap_value b)) xs)"

fun outlier_loop :: "column list \<Rightarrow> nat \<Rightarrow> column list \<times> nat" where
  "outlier_loop [] outliers = ([], outliers)"
| "outlier_loop ((n, NumCol xs) # cs) outliers =
     (let r = outlier_loop cs (outliers + outliers_count xs)
      in ((n, NumCol (cap xs)) # fst r, snd r))"
| "outlier_loop (c # cs) outliers =
     (let r = outlier_loop cs outliers in (c # fst r, snd r))"

text \<open>
  The objects live in a store, a list indexed by reference.  \<open>perform_etl\<close>
  receives the reference of the caller's frame; \<open>df = df.drop_duplicates()\<close>
  allocates a new frame and rebinds the local name to it, and every later
  assignment \<open>df[col] = ...\<close> writes through that name.
\<close>

type_synonym store = "dataframe list"

definition perform_etl ::
  "(string \<Rightarrow> int option) \<Rightarrow> store \<Rightarrow> nat \<Rightarrow> store \<times> nat \<times> etl_stats" where
  "perform_etl parse s0 df0 =
     (let initial_rows = nrows (s0 ! df0);
          df = length s0;
          s1 = s0 @ [drop_duplicates (s0 ! df0)];
          dups = initial_rows - nrows (s1 ! df);
          s2 = s1[df := convert_datetimes parse (s1 ! df)];
          imp = impute_loop (cols (s2 ! df)) 0;
          s3 = s2[df := DataFrame (nrows (s2 ! df)) (fst imp)];
          out = outlier_loop (cols (s3 ! df)) 0;
          s4 = s3[df := DataFrame (nrows (s3 ! df)) (fst out)]
      in (s4, df, \<lparr>duplicates_removed = dups, missing_imputed = snd imp,
                   outliers_handled = snd out\<rparr>))"

text \<open>The cleaned table and the metrics of one run on a table held by the caller.\<close>

definition run_etl :: "(string \<Rightarrow> int option) \<Rightarrow> dataframe \<Rightarrow> dataframe \<times> etl_stats" where
  "run_etl parse df = (case perform_etl parse [df] 0 of (s, r, st) \<Rightarrow> (s ! r, st))"

section \<open>Series statistics shared by the statistics engine and the selector\<close>

text \<open>The numeric columns with their values, in column order.\<close>

fun num_values :: "column \<Rightarrow> (string \<times> real option list) list" where
  "num_values (n, NumCol xs) = [(n, xs)]"
| "num_values (n, TimeCol xs) = []"
| "num_values (n, CatCol xs) = []"

definition number_cols :: "dataframe \<Rightarrow> (string \<times> real option list) list" where
  "number_cols df = concat (map num_values (cols df))"

fun cat_values :: "column \<Rightarrow> (string \<times> string option list) list" where
  "cat_values (n, CatCol xs) = [(n, xs)]"
| "cat_values (n, NumCol xs) = []"
| "cat_values (n, TimeCol xs) = []"

definition object_cols :: "dataframe \<Rightarrow> (string \<times> string option list) list" where
  "object_cols df = concat (map cat_values (cols df))"

text \<open>
  pandas reductions skip missing values; a reduction without enough values is
  NaN, here \<open>None\<close>.  The variance is the sample variance (\<open>ddof=1\<close>).
\<close>

definition mean :: "real option list \<Rightarrow> real option" where
  "mean xs = (let vs = dropna xs in if vs = [] then None else Some (sum_list vs / real (length vs)))"

definition var :: "real option list \<Rightarrow> real option" where
  "var xs =
     (let vs = dropna xs; n = length vs
      in if n \<le> 1 then None
         else let m = sum_list vs / real n
              in Some (sum_list (map (\<lambda>x. (x - m)\<^sup>2) vs) / real (n - 1)))"

definition std :: "real option list \<Rightarrow> real option" where
  "std xs = map_option sqrt (var xs)"

definition min_s :: "real option list \<Rightarrow> real option" where
  "min_s xs = (let vs = dropna xs in if vs = [] then None else Some (Min (set vs)))"

definition max_s :: "real option list \<Rightarrow> real option" where
  "max_s xs = (let vs = dropna xs in if vs = [] then None else Some (Max (set vs)))"

text \<open>The \<open>k\<close>-th central moment, as scipy computes it (divisor \<open>n\<close>).\<close>

definition moment :: "nat \<Rightarrow> real list \<Rightarrow> real" where
  "moment k vs = (let m = sum_list vs / real (length vs)
                  in sum_list (map (\<lambda>x. (x - m) ^ k) vs) / real (length vs))"

text \<open>
  \<open>scipy.stats.skew\<close> and \<open>kurtosis\<close> (Fisher, biased) with \<open>nan_policy='omit'\<close>:
  NaN when no value is left.  On data without spread (second moment zero) scipy
  reports a fixed value and does not raise; which one depends on its version
  (NaN in current ones, 0 and -3 before), so the pair is a parameter.
\<close>

record scipy_flat =
  flat_skew :: "real option"
  flat_kurtosis :: "real option"

definition skew :: "scipy_flat \<Rightarrow> real option list \<Rightarrow> real option" where
  "skew flat xs =
     (let vs = dropna xs
      in if vs = [] then None
         else if moment 2 vs = 0 then flat_skew flat
         else Some (moment 3 vs / (moment 2 vs) powr (3 / 2)))"

definition kurtosis :: "scipy_flat \<Rightarrow> real option list \<Rightarrow> real option" where
  "kurtosis flat xs =
     (let vs = dropna xs
      in if vs = [] then None
         else if moment 2 vs = 0 then flat_kurtosis flat
         else Some (moment 4 vs / (moment 2 vs)\<^sup>2 - 3))"

section \<open>Statistics engine (stats.py, generate_descriptive_stats)\<close>

record stats_row =
  stat_column :: string
  stat_mean :: "real option"
  stat_median :: "real option"
  stat_std :: "real option"
  stat_min :: "real option"
  stat_max :: "real option"
  stat_skewness :: "real option"
  stat_kurtosis :: "real option"

definition describe_col :: "scipy_flat \<Rightarrow> string \<times> real option list \<Rightarrow> stats_row" where
  "describe_col flat c =
     \<lparr>stat_column = fst c, stat_mean = mean (snd c), stat_median = median (snd c),
      stat_std = std (snd c), stat_min = min_s (snd c), stat_max = max_s (snd c),
      stat_skewness = skew flat (snd c), stat_kurtosis = kurtosis flat (snd c)\<rparr>"

text \<open>\<open>None\<close> is the source's \<open>return None\<close>: no numeric column.\<close>

definition generate_descriptive_stats :: "scipy_flat \<Rightarrow> dataframe \<Rightarrow> stats_row list option" where
  "generate_descriptive_stats flat df =
     (let numerical_cols = number_cols df
      in if length numerical_cols = 0 then None
         else Some (map (describe_col flat) numerical_cols))"

section \<open>Visualization selector (visuals.py, generate_visuals)\<close>

datatype chart = Heatmap | Histogram | Scatter | Box | Bar | Pie | Violin | Line | Contour

text \<open>A figure: its type and the columns it draws (the caption is built from them).\<close>

datatype figure = Figure chart "string list"

datatype error = ValueError | TypeError | ZeroDivisionError

text \<open>
  A plotly express call on a frame: every column argument must be the name of a
  column, otherwise the call raises \<open>ValueError\<close>.  NaN, which \<open>idxmax\<close> gives on a
  Series without values, is not a name.
\<close>

definition px :: "dataframe \<Rightarrow> chart \<Rightarrow> string option list \<Rightarrow> error + figure" where
  "px df kind args =
     (if list_all (\<lambda>a. case a of None \<Rightarrow> False | Some n \<Rightarrow> n \<in> set (map fst (cols df))) args
      then Inr (Figure kind (map the args)) else Inl ValueError)"

text \<open>
  Pearson correlation of two columns over the rows where both are present, as
  \<open>DataFrame.corr\<close> computes it: NaN without such rows or on a zero divisor.
\<close>

fun complete_pairs :: "real option list \<Rightarrow> real option list \<Rightarrow> (real \<times> real) list" where
  "complete_pairs (Some x # xs) (Some y # ys) = (x, y) # complete_pairs xs ys"
| "complete_pairs (x # xs) (y # ys) = complete_pairs xs ys"
| "complete_pairs xs ys = []"

definition corr :: "real option list \<Rightarrow> real option list \<Rightarrow> real option" where
  "corr xs ys =
     (let ps = complete_pairs xs ys; n = length ps
      in if n = 0 then None
         else let mx = sum_list (map fst ps) / real n;
                  my = sum_list (map snd ps) / real n;
                  ssx = sum_list (map (\<lambda>p. (fst p - mx)\<^sup>2) ps);
                  ssy = sum_list (map (\<lambda>p. (snd p - my)\<^sup>2) ps);
                  cov = sum_list (map (\<lambda>p. (fst p - mx) * (snd p - my)) ps);
                  divisor = sqrt (ssx * ssy)
              in if divisor \<noteq> 0 then Some (cov / divisor) else None)"

text \<open>
  \<open>corr.abs().unstack()\<close>: the entries of the matrix, column by column, each
  under its pair of names.
\<close>

definition corr_abs_unstack ::
  "(string \<times> real option list) list \<Rightarrow> ((string \<times> string) \<times> real option) list" where
  "corr_abs_unstack numeric_df =
     concat (map (\<lambda>c1. map (\<lambda>c2. ((fst c1, fst c2), map_option abs (corr (snd c1) (snd c2))))
                         numeric_df) numeric_df)"

text \<open>\<open>s[s < 1]\<close>: a comparison with NaN is false.\<close>

fun below_one :: "('k \<times> real option) list \<Rightarrow> ('k \<times> real) list" where
  "below_one [] = []"
| "below_one ((k, None) # kvs) = below_one kvs"
| "below_one ((k, Some v) # kvs) = (if v < 1 then (k, v) # below_one kvs else below_one kvs)"

text \<open>
  The local \<open>corr_unstacked\<close>; it is bound only when there are at least two
  numeric columns.
\<close>

definition corr_unstacked :: "dataframe \<Rightarrow> ((string \<times> string) \<times> real) list option" where
  "corr_unstacked df =
     (let numeric_df = number_cols df
      in if length numeric_df > 1 then Some (below_one (corr_abs_unstack numeric_df)) else None)"

text \<open>
  \<open>s.idxmax()\<close> and \<open>s.idxmin()\<close>: the label of the first largest (smallest)
  value, missing values skipped; NaN when no value is left.
\<close>

fun present :: "('k \<times> 'v option) list \<Rightarrow> ('k \<times> 'v) list" where
  "present [] = []"
| "present ((k, None) # kvs) = present kvs"
| "present ((k, Some v) # kvs) = (k, v) # present kvs"

definition idxmax :: "('k \<times> 'v::linorder) list \<Rightarrow> 'k option" where
  "idxmax kvs =
     (if kvs = [] then None
      else map_option fst (find (\<lambda>kv. snd kv = Max (set (map snd kvs))) kvs))"

definition idxmin :: "('k \<times> 'v::linorder) list \<Rightarrow> 'k option" where
  "idxmin kvs =
     (if kvs = [] then None
      else map_option fst (find (\<lambda>kv. snd kv = Min (set (map snd kvs))) kvs))"

text \<open>\<open>cat_df.nunique()\<close>: the number of distinct values present, per column.\<close>

definition nunique :: "(string \<times> string option list) list \<Rightarrow> (string \<times> nat) list" where
  "nunique cat_df = map (\<lambda>c. (fst c, length (remdups (dropna (snd c))))) cat_df"

text \<open>The rules, each taking the figures so far and adding at most one.\<close>

definition rule_heatmap :: "dataframe \<Rightarrow> figure list \<Rightarrow> error + figure list" where
  "rule_heatmap df figures =
     (let numeric_df = number_cols df
      in if length numeric_df > 1 then Inr (figures @ [Figure Heatmap (map fst numeric_df)])
         else Inr figures)"

definition rule_histogram :: "dataframe \<Rightarrow> figure list \<Rightarrow> error + figure list" where
  "rule_histogram df figures =
     (let numeric_df = number_cols df
      in if \<not> (nrows df = 0 \<or> numeric_df = [])
         then let target_col = idxmax (present (map (\<lambda>c. (fst c, var (snd c))) numeric_df))
              in (case px df Histogram [target_col] of Inl e \<Rightarrow> Inl e
                  | Inr fig \<Rightarrow> Inr (figures @ [fig]))
         else Inr figures)"

definition rule_pair :: "chart \<Rightarrow> dataframe \<Rightarrow> figure list \<Rightarrow> error + figure list" where
  "rule_pair kind df figures =
     (case corr_unstacked df of None \<Rightarrow> Inr figures
      | Some cu \<Rightarrow>
          if length (number_cols df) > 1 \<and> cu \<noteq> []
          then (case idxmax cu of None \<Rightarrow> Inl TypeError
                | Some (col1, col2) \<Rightarrow>
                    (case px df kind [Some col1, Some col2] of Inl e \<Rightarrow> Inl e
                     | Inr fig \<Rightarrow> Inr (figures @ [fig])))
          else Inr figures)"

definition rule_box :: "dataframe \<Rightarrow> figure list \<Rightarrow> error + figure list" where
  "rule_box df figures =
     (let numeric_df = number_cols df
      in if length numeric_df > 0
         then Inr (figures @ [Figure Box (take 5 (map fst numeric_df))])
         else Inr figures)"

definition rule_category ::
  "chart \<Rightarrow> nat \<Rightarrow> ((string \<times> nat) list \<Rightarrow> string option) \<Rightarrow> dataframe \<Rightarrow> figure list
   \<Rightarrow> error + figure list" where
  "rule_category kind limit pick df figures =
     (let cat_df = object_cols df
      in if \<not> (nrows df = 0 \<or> cat_df = [])
         then let valid = filter (\<lambda>kv. snd kv > 1 \<and> snd kv \<le> limit) (nunique cat_df)
              in if valid \<noteq> []
                 then (case pick valid of None \<Rightarrow> Inl ValueError
                       | Some target_cat \<Rightarrow> Inr (figures @ [Figure kind [target_cat]]))
                 else Inr figures
         else Inr figures)"

definition rule_violin :: "dataframe \<Rightarrow> figure list \<Rightarrow> error + figure list" where
  "rule_violin df figures =
     (let numeric_df = number_cols df
      in if length numeric_df > 0
         then (case px df Violin [Some (map fst numeric_df ! (min 1 (length numeric_df - 1)))] of
                 Inl e \<Rightarrow> Inl e | Inr fig \<Rightarrow> Inr (figures @ [fig]))
         else Inr figures)"

definition rule_line :: "dataframe \<Rightarrow> figure list \<Rightarrow> error + figure list" where
  "rule_line df figures =
     (let numeric_df = number_cols df
      in if length numeric_df > 0
         then (case px df Line [Some (map fst numeric_df ! 0)] of
                 Inl e \<Rightarrow> Inl e | Inr fig \<Rightarrow> Inr (figures @ [fig]))
         else Inr figures)"

text \<open>The rules run in the order of the source; an exception ends the run.\<close>

definition run_rules ::
  "(figure list \<Rightarrow> error + figure list) list \<Rightarrow> error + figure list" where
  "run_rules rules =
     fold (\<lambda>rule acc. case acc of Inl e \<Rightarrow> Inl e | Inr figures \<Rightarrow> rule figures) rules (Inr [])"

definition generate_visuals :: "dataframe \<Rightarrow> error + figure list" where
  "generate_visuals df =
     run_rules [rule_heatmap df, rule_histogram df, rule_pair Scatter df, rule_box df,
                rule_category Bar 20 idxmax df, rule_category Pie 5 idxmin df,
                rule_violin df, rule_line df, rule_pair Contour df]"

section \<open>Auxiliary notions for the properties\<close>

text \<open>What the outlier loop does to one column: its count and its new values.\<close>

fun col_outliers :: "coldata \<Rightarrow> nat" where
  "col_outliers (NumCol xs) = outliers_count xs"
| "col_outliers d = 0"

fun cap_col :: "coldata \<Rightarrow> coldata" where
  "cap_col (NumCol xs) = NumCol (cap xs)"
| "cap_col d = d"

text \<open>The frame held by \<open>df\<close> when step 3 begins and when step 4 begins.\<close>

definition before_imputation :: "(string \<Rightarrow> int option) \<Rightarrow> dataframe \<Rightarrow> dataframe" where
  "before_imputation parse df = convert_datetimes parse (drop_duplicates df)"

definition before_capping :: "(string \<Rightarrow> int option) \<Rightarrow> dataframe \<Rightarrow> dataframe" where
  "before_capping parse df =
     DataFrame (nrows (before_imputation parse df))
       (fst (impute_loop (cols (before_imputation parse df)) 0))"

definition never_parses :: "string \<Rightarrow> int option" where
  "never_parses s = None"

fun empty_converted :: "coldata \<Rightarrow> coldata" where
  "empty_converted (CatCol xs) = TimeCol []"
| "empty_converted d = d"

fun is_object :: "coldata \<Rightarrow> bool" where
  "is_object (CatCol xs) = True"
| "is_object d = False"

definition zero_stats :: etl_stats where
  "zero_stats = \<lparr>duplicates_removed = 0, missing_imputed = 0, outliers_handled = 0\<rparr>"

definition sample_raw :: dataframe where
  "sample_raw = DataFrame 4
     [(''A'', NumCol [Some 1, Some 2, Some 2, Some 100]),
      (''B'', CatCol [Some ''x'', Some ''y'', Some ''y'', Some ''z''])]"

definition sample_cleaned :: dataframe where
  "sample_cleaned = DataFrame 3
     [(''A'', NumCol [Some 1, Some 2, Some 100]),
      (''B'', CatCol [Some ''x'', Some ''y'', Some ''z''])]"

definition empty_text_table :: dataframe where
  "empty_text_table = DataFrame 0 [(''C'', CatCol [])]"



text \<open>The values that occur most often in a list.\<close>

definition most_frequent :: "'a list \<Rightarrow> 'a set" where
  "most_frequent vs = {k \<in> set vs. \<forall>j\<in>set vs. count_list vs j \<le> count_list vs k}"

section \<open>Health scorer over float arithmetic\<close>

text \<open>
  The scorer computes in doubles.  Their operations are taken as parameters:
  true division, multiplication, addition, subtraction and \<open>round(x, 1)\<close>, each
  some function on the reals that the doubles denote.  Python's \<open>/\<close> raises
  \<open>ZeroDivisionError\<close> on a zero divisor, so the result is a score or an error.
  At exact arithmetic this is \<open>calculate_health_score\<close> above.
\<close>

record float_ops =
  fdiv :: "real \<Rightarrow> real \<Rightarrow> real"
  fmul :: "real \<Rightarrow> real \<Rightarrow> real"
  fadd :: "real \<Rightarrow> real \<Rightarrow> real"
  fsub :: "real \<Rightarrow> real \<Rightarrow> real"
  fround1 :: "real \<Rightarrow> real"

definition truediv :: "float_ops \<Rightarrow> nat \<Rightarrow> nat \<Rightarrow> error + real" where
  "truediv ops a b = (if b = 0 then Inl ZeroDivisionError else Inr (fdiv ops (real a) (real b)))"

definition bind_err :: "error + 'a \<Rightarrow> ('a \<Rightarrow> error + 'b) \<Rightarrow> error + 'b" where
  "bind_err m f = (case m of Inl e \<Rightarrow> Inl e | Inr x \<Rightarrow> f x)"

definition calculate_health_score_float ::
  "float_ops \<Rightarrow> dataframe \<Rightarrow> dataframe \<Rightarrow> etl_stats \<Rightarrow> error + real" where
  "calculate_health_score_float ops df_original df_cleaned st =
     (let total_cells = nrows df_original * length (cols df_original);
          total_rows = nrows df_original
      in if total_cells = 0 \<or> total_rows = 0 then Inr 0
         else
           bind_err (truediv ops (missing_imputed st) total_cells) (\<lambda>q1.
           bind_err (truediv ops (duplicates_removed st) total_rows) (\<lambda>q2.
           bind_err (if numeric_cells df_original > 0
                     then bind_err (truediv ops (outliers_handled st) (numeric_cells df_original))
                            (\<lambda>q3. Inr (fmul ops q3 30))
                     else Inr 0) (\<lambda>outlier_penalty.
           let missing_penalty = fmul ops q1 40;
               duplicate_penalty = fmul ops q2 30;
               score = fsub ops 100
                         (fadd ops (fadd ops missing_penalty duplicate_penalty) outlier_penalty)
           in Inr (max 0 (min 100 (fround1 ops score)))))))"

text \<open>Exact arithmetic, with ties of the rounding going to the even neighbour.\<close>

definition exact_ops :: float_ops where
  "exact_ops = \<lparr>fdiv = (\<lambda>a b. a / b), fmul = (\<lambda>a b. a * b), fadd = (\<lambda>a b. a + b),
                 fsub = (\<lambda>a b. a - b), fround1 = py_round1\<rparr>"

text \<open>
  The specification's side, in its own words.  A number rounded to one decimal
  is a multiple of a tenth at most half a tenth away; the specification leaves
  ties open.  The raw score is 100 minus the three weighted ratios, each zero on
  a zero denominator.
\<close>

definition rounded_to_1_decimal :: "real \<Rightarrow> real \<Rightarrow> bool" where
  "rounded_to_1_decimal x r = (of_int \<lfloor>r * 10\<rfloor> = r * 10 \<and> \<bar>r - x\<bar> \<le> 1 / 20)"

definition spec_penalty :: "float_ops \<Rightarrow> nat \<Rightarrow> nat \<Rightarrow> real \<Rightarrow> real" where
  "spec_penalty ops count denom weight =
     (if denom = 0 then 0 else fmul ops (fdiv ops (real count) (real denom)) weight)"

definition spec_raw_score :: "float_ops \<Rightarrow> dataframe \<Rightarrow> etl_stats \<Rightarrow> real" where
  "spec_raw_score ops raw st =
     fsub ops 100
       (fadd ops
          (fadd ops (spec_penalty ops (missing_imputed st) (nrows raw * length (cols raw)) 40)
                    (spec_penalty ops (duplicates_removed st) (nrows raw) 30))
          (spec_penalty ops (outliers_handled st)
             (nrows raw * length (filter (\<lambda>c. is_number (snd c)) (cols raw))) 30))"

definition one_duplicate :: etl_stats where
  "one_duplicate = \<lparr>duplicates_removed = 1, missing_imputed = 0, outliers_handled = 0\<rparr>"




definition tied_column :: "string option list" where
  "tied_column = [Some ''b'', Some ''a'', None]"

definition tied_table :: dataframe where
  "tied_table = DataFrame 3
     [(''C'', CatCol tied_column), (''N'', NumCol [Some 1, Some 2, Some 3])]"

definition tied_dates :: "int option list" where
  "tied_dates = [Some 20, None, Some 10]"

text \<open>
  The tie-break as the specification words it: among the most frequent values,
  the one met first in row order.
\<close>

definition first_mode :: "'a option list \<Rightarrow> 'a option" where
  "first_mode xs =
     (let vs = dropna xs
      in find (\<lambda>k. list_all (\<lambda>j. count_list vs j \<le> count_list vs k) vs) vs)"

text \<open>
  A column without spread: it holds a value and all its values are equal.  The
  sentinels of current scipy, and sample tables for the statistics engine and
  the selector.
\<close>

definition flat_column :: "real option list \<Rightarrow> bool" where
  "flat_column xs = (dropna xs \<noteq> [] \<and> list_all (\<lambda>x. x = hd (dropna xs)) (dropna xs))"

definition modern_scipy :: scipy_flat where
  "modern_scipy = \<lparr>flat_skew = None, flat_kurtosis = None\<rparr>"

definition flat_table :: dataframe where
  "flat_table = DataFrame 2
     [(''T'', CatCol [Some ''x'', Some ''y'']), (''A'', NumCol [Some 3, Some 3]),
      (''B'', NumCol [Some 1, Some 2])]"

definition text_table :: dataframe where
  "text_table = DataFrame 2 [(''T'', CatCol [Some ''x'', Some ''y''])]"

definition single_row_table :: dataframe where
  "single_row_table = DataFrame 1 [(''A'', NumCol [Some 5])]"

definition perfect_pair_table :: dataframe where
  "perfect_pair_table = DataFrame 3
     [(''A'', NumCol [Some 1, Some 2, Some 3]), (''B'', NumCol [Some 2, Some 4, Some 6])]"

section \<open>Rounding\<close>

lemma round_half_even_of_int: "round_half_even (of_int n) = n"
  by (simp add: round_half_even_def)

lemma round_half_even_bounds:
  "\<lfloor>x\<rfloor> \<le> round_half_even x \<and> round_half_even x \<le> \<lfloor>x\<rfloor> + 1"
  by (simp add: round_half_even_def Let_def)

lemma round_half_even_mono:
  assumes "x \<le> y"
  shows "round_half_even x \<le> round_half_even y"
proof (cases "\<lfloor>x\<rfloor> = \<lfloor>y\<rfloor>")
  case True
  with assms show ?thesis
    by (auto simp: round_half_even_def Let_def)
next
  case False
  with assms have "\<lfloor>x\<rfloor> < \<lfloor>y\<rfloor>"
    by (simp add: floor_mono order_less_le)
  then have "\<lfloor>x\<rfloor> + 1 \<le> \<lfloor>y\<rfloor>" by simp
  with round_half_even_bounds [of x] round_half_even_bounds [of y] show ?thesis
    by linarith
qed

lemma py_round1_mono: "x \<le> y \<Longrightarrow> py_round1 x \<le> py_round1 y"
  by (simp add: py_round1_def round_half_even_mono divide_right_mono)

lemma py_round1_0: "py_round1 0 = 0"
  using round_half_even_of_int [of 0] by (simp add: py_round1_def)

lemma py_round1_100: "py_round1 100 = 100"
  using round_half_even_of_int [of 1000] by (simp add: py_round1_def)

section \<open>Shape of the cleansing stages\<close>

lemma length_duplicated_from: "length (duplicated_from seen rs) = length rs"
  by (induction rs arbitrary: seen) simp_all

lemma length_rows: "length (rows df) = nrows df"
  by (simp add: rows_def)

lemma length_duplicated: "length (duplicated df) = nrows df"
  by (simp add: duplicated_def length_duplicated_from length_rows)

lemma length_bool_index:
  "length keep = length xs \<Longrightarrow> length (bool_index keep xs) = length (filter id keep)"
proof (induction keep arbitrary: xs)
  case Nil
  then show ?case by (simp add: bool_index_def)
next
  case (Cons k ks)
  then obtain y ys where "xs = y # ys" by (cases xs) auto
  with Cons show ?case by (simp add: bool_index_def)
qed





lemma clen_col_index:
  "length keep = clen d \<Longrightarrow> clen (col_index keep d) = length (filter id keep)"
  by (cases d) (simp_all add: length_bool_index)

lemma is_number_col_index: "is_number (col_index keep d) = is_number d"
  by (cases d) simp_all

lemma names_drop_duplicates: "map fst (cols (drop_duplicates df)) = map fst (cols df)"
  by (simp add: drop_duplicates_def Let_def comp_def)

lemma nrows_drop_duplicates: "nrows (drop_duplicates df) \<le> nrows df"
proof -
  have "length (filter id (map Not (duplicated df))) \<le> length (map Not (duplicated df))"
    by (rule length_filter_le)
  then show ?thesis
    by (simp add: drop_duplicates_def Let_def length_duplicated)
qed

lemma wf_drop_duplicates:
  assumes "wf df"
  shows "wf (drop_duplicates df)"
proof (cases "empty_df df")
  case True
  with assms show ?thesis by (simp add: drop_duplicates_def)
next
  case False
  have "clen (col_index (map Not (duplicated df)) (snd c)) =
        length (filter id (map Not (duplicated df)))" if "c \<in> set (cols df)" for c
  proof -
    from assms that have "clen (snd c) = nrows df" by (simp add: wf_def list_all_iff)
    then show ?thesis by (simp add: clen_col_index length_duplicated)
  qed
  with assms False show ?thesis
    by (simp add: wf_def drop_duplicates_def Let_def list_all_iff comp_def)
qed

lemma is_number_drop_duplicates:
  "map (\<lambda>c. is_number (snd c)) (cols (drop_duplicates df)) = map (\<lambda>c. is_number (snd c)) (cols df)"
  by (simp add: drop_duplicates_def Let_def comp_def is_number_col_index)

lemma clen_convert_col: "clen (convert_col parse d) = clen d"
  by (cases d) (simp_all add: to_datetime_def)

lemma is_number_convert_col: "is_number (convert_col parse d) = is_number d"
  by (cases d) (simp_all add: to_datetime_def)

lemma wf_convert_datetimes: "wf df \<Longrightarrow> wf (convert_datetimes parse df)"
  by (simp add: wf_def convert_datetimes_def list_all_iff comp_def clen_convert_col)

lemma clen_fill_col: "clen (fill_col d) = clen d"
  by (cases d) (simp_all add: fillna_def)

lemma is_number_fill_col: "is_number (fill_col d) = is_number d"
  by (cases d) simp_all

text \<open>The two loops, seen as a map over the columns and a sum.\<close>

lemma fst_impute_loop:
  "fst (impute_loop cs k) =
   map (\<lambda>c. if isnull_sum (snd c) > 0 then (fst c, fill_col (snd c)) else c) cs"
  by (induction cs arbitrary: k) (simp_all add: Let_def)

lemma snd_impute_loop:
  "snd (impute_loop cs k) = k + sum_list (map (\<lambda>c. isnull_sum (snd c)) cs)"
  by (induction cs arbitrary: k) (simp_all add: Let_def)

lemma fst_outlier_loop: "fst (outlier_loop cs k) = map (\<lambda>c. (fst c, cap_col (snd c))) cs"
  by (induction cs k rule: outlier_loop.induct) (simp_all add: Let_def)

lemma snd_outlier_loop:
  "snd (outlier_loop cs k) = k + sum_list (map (\<lambda>c. col_outliers (snd c)) cs)"
  by (induction cs k rule: outlier_loop.induct) (simp_all add: Let_def)

lemma length_cap: "length (cap xs) = length xs"
  by (simp add: cap_def split: option.splits)

lemma clen_cap_col: "clen (cap_col d) = clen d"
  by (cases d) (simp_all add: length_cap)

lemma is_number_cap_col: "is_number (cap_col d) = is_number d"
  by (cases d) simp_all

section \<open>The run as a composition of stages\<close>

lemma perform_etl_eq:
  "perform_etl parse s r =
     (s @ [DataFrame (nrows (before_capping parse (s ! r)))
             (fst (outlier_loop (cols (before_capping parse (s ! r))) 0))],
      length s,
      \<lparr>duplicates_removed = nrows (s ! r) - nrows (drop_duplicates (s ! r)),
       missing_imputed = snd (impute_loop (cols (before_imputation parse (s ! r))) 0),
       outliers_handled = snd (outlier_loop (cols (before_capping parse (s ! r))) 0)\<rparr>)"
  by (simp add: perform_etl_def Let_def before_capping_def before_imputation_def)

lemma run_etl_eq:
  "run_etl parse df =
     (DataFrame (nrows (before_capping parse df))
        (fst (outlier_loop (cols (before_capping parse df)) 0)),
      \<lparr>duplicates_removed = nrows df - nrows (drop_duplicates df),
       missing_imputed = snd (impute_loop (cols (before_imputation parse df)) 0),
       outliers_handled = snd (outlier_loop (cols (before_capping parse df)) 0)\<rparr>)"
  by (simp add: run_etl_def perform_etl_eq)

lemma nrows_before_imputation: "nrows (before_imputation parse df) = nrows (drop_duplicates df)"
  by (simp add: before_imputation_def convert_datetimes_def)

lemma nrows_before_capping: "nrows (before_capping parse df) = nrows (drop_duplicates df)"
  by (simp add: before_capping_def nrows_before_imputation)

lemma wf_before_imputation: "wf df \<Longrightarrow> wf (before_imputation parse df)"
  by (simp add: before_imputation_def wf_convert_datetimes wf_drop_duplicates)

lemma length_cols_before_imputation:
  "length (cols (before_imputation parse df)) = length (cols df)"
  by (simp add: before_imputation_def convert_datetimes_def drop_duplicates_def Let_def)

lemma cols_before_capping:
  "cols (before_capping parse df) =
   map (\<lambda>c. if isnull_sum (snd c) > 0 then (fst c, fill_col (snd c)) else c)
     (cols (before_imputation parse df))"
  by (simp add: before_capping_def fst_impute_loop)

lemma is_number_before_imputation:
  "map (\<lambda>c. is_number (snd c)) (cols (before_imputation parse df)) =
   map (\<lambda>c. is_number (snd c)) (cols df)"
proof -
  have "map (\<lambda>c. is_number (snd c)) (cols (before_imputation parse df)) =
        map (\<lambda>c. is_number (snd c)) (cols (drop_duplicates df))"
    by (simp add: before_imputation_def convert_datetimes_def comp_def is_number_convert_col)
  then show ?thesis by (simp add: is_number_drop_duplicates)
qed

lemma is_number_before_capping:
  "map (\<lambda>c. is_number (snd c)) (cols (before_capping parse df)) =
   map (\<lambda>c. is_number (snd c)) (cols df)"
proof -
  have "map (\<lambda>c. is_number (snd c)) (cols (before_capping parse df)) =
        map (\<lambda>c. is_number (snd c)) (cols (before_imputation parse df))"
    by (simp add: cols_before_capping comp_def is_number_fill_col if_distrib cong: if_cong)
  then show ?thesis by (simp add: is_number_before_imputation)
qed

lemma wf_before_capping:
  assumes "wf df"
  shows "wf (before_capping parse df)"
proof -
  have w: "wf (before_imputation parse df)" using assms by (rule wf_before_imputation)
  have n: "map fst (cols (before_capping parse df)) = map fst (cols (before_imputation parse df))"
    by (simp add: cols_before_capping comp_def if_distrib cong: if_cong)
  have "clen (snd c) = nrows (before_capping parse df)"
    if "c \<in> set (cols (before_capping parse df))" for c
  proof -
    from that have "c \<in> (\<lambda>c. if isnull_sum (snd c) > 0 then (fst c, fill_col (snd c)) else c)
                     ` set (cols (before_imputation parse df))"
      by (simp only: cols_before_capping set_map)
    then obtain c0 where c0: "c0 \<in> set (cols (before_imputation parse df))"
      and c: "c = (if isnull_sum (snd c0) > 0 then (fst c0, fill_col (snd c0)) else c0)"
      by (rule imageE)
    from w c0 have "clen (snd c0) = nrows (before_imputation parse df)"
      by (simp add: wf_def list_all_iff)
    with c show ?thesis
      by (simp add: clen_fill_col nrows_before_capping nrows_before_imputation)
  qed
  with w n show ?thesis by (simp add: wf_def list_all_iff)
qed

lemma length_filter_cong_map:
  "map P xs = map Q ys \<Longrightarrow> length (filter P xs) = length (filter Q ys)"
proof (induction xs arbitrary: ys)
  case Nil
  then show ?case by simp
next
  case (Cons x xs)
  then obtain y ys' where "ys = y # ys'" by (cases ys) auto
  with Cons show ?case by auto
qed

lemma sum_list_le_length_times:
  fixes f :: "'a \<Rightarrow> nat"
  assumes "\<And>x. x \<in> set xs \<Longrightarrow> f x \<le> b"
  shows "sum_list (map f xs) \<le> length xs * b"
  using assms by (induction xs) (simp_all add: add_mono)

lemma sum_list_le_filter_times:
  fixes f :: "'a \<Rightarrow> nat"
  assumes "\<And>x. x \<in> set xs \<Longrightarrow> f x \<le> (if P x then b else 0)"
  shows "sum_list (map f xs) \<le> length (filter P xs) * b"
  using assms
proof (induction xs)
  case Nil
  then show ?case by simp
next
  case (Cons x xs)
  then have "f x \<le> (if P x then b else 0)" and "sum_list (map f xs) \<le> length (filter P xs) * b"
    by simp_all
  then show ?case by (auto split: if_splits)
qed

lemma count_none_le: "count_none xs \<le> length xs"
  by (simp add: count_none_def)

lemma isnull_sum_le: "isnull_sum d \<le> clen d"
  by (cases d) (simp_all add: count_none_le)

lemma outliers_count_le: "outliers_count xs \<le> length xs"
  by (simp add: outliers_count_def split: option.splits)

lemma col_outliers_le: "col_outliers d \<le> (if is_number d then clen d else 0)"
  by (cases d) (simp_all add: outliers_count_le)

lemma missing_imputed_le:
  assumes "wf df"
  shows "snd (impute_loop (cols (before_imputation parse df)) 0) \<le> nrows df * length (cols df)"
proof -
  let ?d = "before_imputation parse df"
  have w: "wf ?d" using assms by (rule wf_before_imputation)
  have "sum_list (map (\<lambda>c. isnull_sum (snd c)) (cols ?d)) \<le> length (cols ?d) * nrows ?d"
  proof (rule sum_list_le_length_times)
    fix c assume "c \<in> set (cols ?d)"
    with w have "clen (snd c) = nrows ?d" by (simp add: wf_def list_all_iff)
    with isnull_sum_le [of "snd c"] show "isnull_sum (snd c) \<le> nrows ?d" by simp
  qed
  also have "\<dots> = length (cols df) * nrows (drop_duplicates df)"
    by (simp add: length_cols_before_imputation nrows_before_imputation)
  also have "\<dots> \<le> length (cols df) * nrows df"
    by (rule mult_le_mono2) (rule nrows_drop_duplicates)
  finally show ?thesis by (simp add: snd_impute_loop mult.commute)
qed

lemma outliers_handled_le:
  assumes "wf df"
  shows "snd (outlier_loop (cols (before_capping parse df)) 0) \<le> numeric_cells df"
proof -
  let ?d = "before_capping parse df"
  have w: "wf ?d" using assms by (rule wf_before_capping)
  have "sum_list (map (\<lambda>c. col_outliers (snd c)) (cols ?d))
        \<le> length (filter (\<lambda>c. is_number (snd c)) (cols ?d)) * nrows ?d"
  proof (rule sum_list_le_filter_times)
    fix c assume "c \<in> set (cols ?d)"
    with w have "clen (snd c) = nrows ?d" by (simp add: wf_def list_all_iff)
    with col_outliers_le [of "snd c"]
    show "col_outliers (snd c) \<le> (if is_number (snd c) then nrows ?d else 0)"
      by (auto split: if_splits)
  qed
  also have "length (filter (\<lambda>c. is_number (snd c)) (cols ?d)) =
             length (filter (\<lambda>c. is_number (snd c)) (cols df))"
    by (rule length_filter_cong_map) (rule is_number_before_capping)
  also have "length (filter (\<lambda>c. is_number (snd c)) (cols df)) * nrows ?d
             \<le> length (filter (\<lambda>c. is_number (snd c)) (cols df)) * nrows df"
    by (rule mult_le_mono2) (simp add: nrows_before_capping nrows_drop_duplicates)
  finally show ?thesis
    by (simp add: snd_outlier_loop numeric_cells_def select_number_def mult.commute)
qed

lemma penalty_le:
  fixes w :: real
  assumes "m \<le> n" "0 < n" "0 \<le> w"
  shows "real m / real n * w \<le> w"
proof -
  from assms have "real m / real n \<le> 1" by simp
  from this assms(3) have "real m / real n * w \<le> 1 * w" by (rule mult_right_mono)
  then show ?thesis by simp
qed

lemma run_etl_sample:
  "run_etl never_parses sample_raw =
     (sample_cleaned, \<lparr>duplicates_removed = 1, missing_imputed = 0, outliers_handled = 0\<rparr>)"
  by code_simp

lemma wf_sample_raw: "wf sample_raw"
  by (simp add: wf_def sample_raw_def)

lemma count_none_Nil: "count_none [] = 0"
  by (simp add: count_none_def)

lemma empty_col_facts:
  assumes "clen d = 0"
  shows "convert_col parse d = empty_converted d" and "isnull_sum d = 0"
    and "cap_col d = d" and "col_outliers d = 0"
  using assms
  by (cases d; simp add: to_datetime_def count_none_Nil cap_def outliers_count_def
      iqr_bounds_def quantile_def)+

lemma clen_empty_converted: "clen d = 0 \<Longrightarrow> clen (empty_converted d) = 0"
  by (cases d) simp_all

section \<open>Values surviving deduplication\<close>


lemma count_none_zero_iff: "count_none xs = 0 \<longleftrightarrow> None \<notin> set xs"
  by (induction xs) (auto simp: count_none_def)












section \<open>Missing cells through conversion, filling and capping\<close>






lemma set_dropna: "set (dropna xs) = {x. Some x \<in> set xs}"
  by (induction xs rule: dropna.induct) auto

lemma sort_Nil_iff: "sort xs = [] \<longleftrightarrow> xs = []"
  by (cases xs) simp_all


lemma max_count_iff:
  assumes "k \<in> set vs"
  shows "count_list vs k = Max (count_list vs ` set vs)
         \<longleftrightarrow> (\<forall>j\<in>set vs. count_list vs j \<le> count_list vs k)"
proof -
  let ?C = "count_list vs ` set vs"
  from assms have ne: "?C \<noteq> {}" and fin: "finite ?C" by auto
  show ?thesis
  proof
    assume e: "count_list vs k = Max ?C"
    show "\<forall>j\<in>set vs. count_list vs j \<le> count_list vs k"
    proof
      fix j assume "j \<in> set vs"
      then have "count_list vs j \<in> ?C" by simp
      with fin have "count_list vs j \<le> Max ?C" by (rule Max_ge)
      with e show "count_list vs j \<le> count_list vs k" by simp
    qed
  next
    assume a: "\<forall>j\<in>set vs. count_list vs j \<le> count_list vs k"
    from assms have "count_list vs k \<in> ?C" by simp
    with fin have u: "count_list vs k \<le> Max ?C" by (rule Max_ge)
    from fin ne have "Max ?C \<in> ?C" by (rule Max_in)
    then obtain j where "j \<in> set vs" "Max ?C = count_list vs j" by auto
    with a have "Max ?C \<le> count_list vs k" by simp
    with u show "count_list vs k = Max ?C" by simp
  qed
qed

lemma set_mode: "set (mode xs) = most_frequent (dropna xs)"
proof (cases "dropna xs = []")
  case True
  then show ?thesis by (simp add: mode_def most_frequent_def)
next
  case False
  then show ?thesis
    by (auto simp: mode_def Let_def most_frequent_def max_count_iff)
qed

lemma sorted_mode: "sorted (mode xs)"
  by (simp add: mode_def Let_def)

lemma most_frequent_nonempty:
  assumes "vs \<noteq> []"
  shows "most_frequent vs \<noteq> {}"
proof -
  let ?C = "count_list vs ` set vs"
  from assms have "Max ?C \<in> ?C" by (intro Max_in) auto
  then obtain k where k: "k \<in> set vs" "count_list vs k = Max ?C" by auto
  then have "k \<in> most_frequent vs"
    using max_count_iff [OF k(1)] by (simp add: most_frequent_def)
  then show ?thesis by blast
qed

lemma mode_nonempty: "dropna xs \<noteq> [] \<Longrightarrow> mode xs \<noteq> []"
  using most_frequent_nonempty [of "dropna xs"] set_mode [of xs] by auto

lemma hd_sorted_Min:
  assumes "sorted l" and "l \<noteq> []"
  shows "hd l = Min (set l)"
proof -
  from assms obtain a as where l: "l = a # as" by (cases l) auto
  with assms(1) have "\<forall>y\<in>set l. a \<le> y" by auto
  then have "Min (set l) = a" using l by (intro Min_eqI) auto
  with l show ?thesis by simp
qed

lemma mode_head:
  assumes "dropna xs \<noteq> []"
  shows "\<exists>ms. mode xs = Min (most_frequent (dropna xs)) # ms"
proof -
  from assms have ne: "mode xs \<noteq> []" by (rule mode_nonempty)
  then obtain m ms where m: "mode xs = m # ms" by (cases "mode xs") auto
  from hd_sorted_Min [OF sorted_mode ne] have "hd (mode xs) = Min (most_frequent (dropna xs))"
    by (simp add: set_mode)
  with m show ?thesis by simp
qed






section \<open>Columns of the stages by position\<close>










section \<open>Rounding to one decimal\<close>

lemma rounded_to_1_decimal_unique:
  assumes "rounded_to_1_decimal (of_int n / 10) r"
  shows "r = of_int n / 10"
proof -
  from assms have i: "of_int \<lfloor>r * 10\<rfloor> = r * 10" and d: "\<bar>r - of_int n / 10\<bar> \<le> 1 / 20"
    by (simp_all add: rounded_to_1_decimal_def)
  from d have "\<bar>r * 10 - of_int n\<bar> \<le> 1 / 2"
    unfolding abs_le_iff by linarith
  then have "\<bar>(of_int \<lfloor>r * 10\<rfloor> - of_int n :: real)\<bar> \<le> 1 / 2"
    by (simp only: i)
  then have "\<bar>(of_int (\<lfloor>r * 10\<rfloor> - n) :: real)\<bar> \<le> 1 / 2" by simp
  then have "\<bar>(of_int (\<lfloor>r * 10\<rfloor> - n) :: real)\<bar> < 1" by linarith
  then have "\<bar>\<lfloor>r * 10\<rfloor> - n\<bar> < 1" by linarith
  then have "\<lfloor>r * 10\<rfloor> = n" by simp
  then have "(of_int \<lfloor>r * 10\<rfloor> :: real) = of_int n" by simp
  then have "r * 10 = of_int n" by (simp only: i)
  then show ?thesis by simp
qed

lemma rounding_fixes:
  assumes "\<forall>x. rounded_to_1_decimal x (f x)"
  shows "f 0 = 0" and "f 100 = 100"
proof -
  from assms have "rounded_to_1_decimal (of_int 0 / 10) (f 0)" by simp
  then show "f 0 = 0" using rounded_to_1_decimal_unique [of 0 "f 0"] by simp
  from assms have "rounded_to_1_decimal (of_int 1000 / 10) (f 100)" by simp
  then show "f 100 = 100" using rounded_to_1_decimal_unique [of 1000 "f 100"] by simp
qed

lemma clamp_rounding:
  fixes f :: "real \<Rightarrow> real"
  assumes m: "mono f" and f0: "f 0 = 0" and f100: "f 100 = 100"
  shows "max 0 (min 100 (f x)) = f (clamp x 0 100)"
proof -
  consider "x < 0" | "0 \<le> x" "x \<le> 100" | "100 < x" by linarith
  then show ?thesis
  proof cases
    case 1
    then have "f x \<le> f 0" using m by (simp add: monoD)
    with 1 f0 show ?thesis by (simp add: clamp_def)
  next
    case 2
    then have "f 0 \<le> f x" "f x \<le> f 100" using m by (simp_all add: monoD)
    with 2 f0 f100 show ?thesis by (simp add: clamp_def)
  next
    case 3
    then have "f 100 \<le> f x" using m by (simp add: monoD)
    with 3 f100 show ?thesis by (simp add: clamp_def)
  qed
qed

lemma round_half_even_near: "\<bar>of_int (round_half_even x) - x\<bar> \<le> 1 / 2"
proof -
  have "of_int \<lfloor>x\<rfloor> \<le> x" "x < of_int \<lfloor>x\<rfloor> + 1" by linarith+
  then show ?thesis by (auto simp: round_half_even_def Let_def)
qed

lemma py_round1_rounded: "rounded_to_1_decimal x (py_round1 x)"
proof -
  have "\<bar>of_int (round_half_even (x * 10)) - x * 10\<bar> \<le> 1 / 2"
    by (rule round_half_even_near)
  then have "\<bar>of_int (round_half_even (x * 10)) / 10 - x\<bar> \<le> 1 / 20"
    unfolding abs_le_iff by linarith
  then show ?thesis by (simp add: rounded_to_1_decimal_def py_round1_def)
qed

lemma mono_py_round1: "mono py_round1"
  by (rule monoI) (rule py_round1_mono)

lemma health_score_exact:
  "calculate_health_score_float exact_ops raw cleaned st = Inr (calculate_health_score raw cleaned st)"
  by (simp add: calculate_health_score_float_def calculate_health_score_def exact_ops_def
      truediv_def bind_err_def Let_def missing_penalty_def duplicate_penalty_def
      outlier_penalty_def numeric_cells_def select_number_def)

section \<open>Quartiles and capping\<close>


lemma quantile_Some:
  "dropna xs \<noteq> [] \<Longrightarrow>
   quantile xs q =
     Some (sort (dropna xs) ! nat \<lfloor>real (length (dropna xs) - 1) * q\<rfloor>
           + (real (length (dropna xs) - 1) * q
              - real (nat \<lfloor>real (length (dropna xs) - 1) * q\<rfloor>))
             * (sort (dropna xs) ! min (nat \<lfloor>real (length (dropna xs) - 1) * q\<rfloor> + 1)
                                      (length (dropna xs) - 1)
                - sort (dropna xs) ! nat \<lfloor>real (length (dropna xs) - 1) * q\<rfloor>))"
  by (simp add: quantile_def Let_def sort_Nil_iff)

lemma quantile_None: "dropna xs = [] \<Longrightarrow> quantile xs q = None"
  by (simp add: quantile_def)







lemma iqr_bounds_None: "iqr_bounds xs = None \<longleftrightarrow> dropna xs = []"
  by (cases "dropna xs = []") (simp_all add: iqr_bounds_def quantile_None quantile_Some Let_def)

section \<open>The cleaned table on a second run\<close>




lemma fill_col_least:
  assumes "dropna xs \<noteq> []"
  shows "fill_col (CatCol xs) = CatCol (fillna (Some (Min (most_frequent (dropna xs)))) xs)"
  using mode_head [OF assms] by auto

lemma fill_col_least_time:
  assumes "dropna ts \<noteq> []"
  shows "fill_col (TimeCol ts) = TimeCol (fillna (Some (Min (most_frequent (dropna ts)))) ts)"
  using mode_head [OF assms] by auto

lemma count_none_pos: "None \<in> set xs \<Longrightarrow> 0 < count_none xs"
  using count_none_zero_iff [of xs] by auto

section \<open>Deduplication is idempotent\<close>










section \<open>Statistics of a column without spread\<close>

lemma sum_list_constant:
  fixes c :: real
  assumes "\<forall>x\<in>set vs. x = c"
  shows "sum_list vs = real (length vs) * c"
  using assms by (induction vs) (simp_all add: algebra_simps)

lemma moment_flat:
  assumes "vs \<noteq> []" and "\<forall>x\<in>set vs. x = c"
  shows "moment 2 vs = 0"
proof -
  from assms have m: "sum_list vs / real (length vs) = c"
    by (simp add: sum_list_constant)
  from assms(2) have "\<forall>x\<in>set vs. (x - c)\<^sup>2 = 0" by simp
  then have "sum_list (map (\<lambda>x. (x - c)\<^sup>2) vs) = 0"
    by (induction vs) simp_all
  then show ?thesis by (simp add: moment_def Let_def m)
qed

lemma flat_column_skew:
  assumes "flat_column xs"
  shows "skew flat xs = flat_skew flat" and "kurtosis flat xs = flat_kurtosis flat"
proof -
  from assms have ne: "dropna xs \<noteq> []" and "\<forall>x\<in>set (dropna xs). x = hd (dropna xs)"
    by (simp_all add: flat_column_def list_all_iff)
  then have "moment 2 (dropna xs) = 0" by (rule moment_flat)
  with ne show "skew flat xs = flat_skew flat" and "kurtosis flat xs = flat_kurtosis flat"
    by (simp_all add: skew_def kurtosis_def Let_def)
qed

lemma number_cols_filter:
  "map fst (number_cols df) = map fst (filter (\<lambda>c. is_number (snd c)) (cols df))"
proof -
  have "map fst (concat (map num_values cs)) = map fst (filter (\<lambda>c. is_number (snd c)) cs)" for cs
  proof (induction cs)
    case Nil
    then show ?case by simp
  next
    case (Cons c cs)
    obtain n d where "c = (n, d)" by (cases c)
    with Cons show ?case by (cases d) simp_all
  qed
  then show ?thesis by (simp add: number_cols_def)
qed

section \<open>The selector on two small tables\<close>

lemmas selector_defs =
  generate_visuals_def run_rules_def rule_heatmap_def rule_histogram_def rule_pair_def
  rule_box_def rule_category_def rule_violin_def rule_line_def corr_unstacked_def
  corr_abs_unstack_def corr_def number_cols_def object_cols_def nunique_def var_def
  idxmax_def idxmin_def px_def Let_def

lemma sqrt_16: "sqrt 16 = 4"
  by (rule real_sqrt_unique) simp_all

lemma sqrt_64: "sqrt 64 = 8"
  by (rule real_sqrt_unique) simp_all

section \<open>Claims\<close>

text \<open>
  C1.  For every raw table and every metrics record the scorer returns a score
  and no error: no division by zero is reached.  A table without cells scores
  0.  Otherwise the score is the specification's formula: 100 minus the three
  weighted ratios (each zero on a zero denominator), clamped to \<open>[0, 100]\<close> and
  rounded to one decimal.  The source rounds first and clamps afterwards; that
  is the same whenever the rounding is monotone and leaves 0 and 100 as they
  are, as \<open>round(x, 1)\<close> does on doubles, and whatever the other float
  operations are.  When the rounding yields a nearest tenth, the score is a
  nearest tenth of the clamped value.
\<close>

theorem health_score_formula:
  assumes "mono (fround1 ops)" and "fround1 ops 0 = 0" and "fround1 ops 100 = 100"
  shows "\<exists>score. calculate_health_score_float ops raw cleaned st = Inr score
           \<and> (nrows raw * length (cols raw) = 0 \<longrightarrow> score = 0)
           \<and> (nrows raw * length (cols raw) \<noteq> 0 \<longrightarrow>
                score = fround1 ops (clamp (spec_raw_score ops raw st) 0 100)
                \<and> ((\<forall>x. rounded_to_1_decimal x (fround1 ops x)) \<longrightarrow>
                     rounded_to_1_decimal (clamp (spec_raw_score ops raw st) 0 100) score))"
proof (cases "nrows raw * length (cols raw) = 0")
  case True
  then show ?thesis by (simp add: calculate_health_score_float_def)
next
  case False
  then have r: "nrows raw \<noteq> 0" and c: "cols raw \<noteq> []" by auto
  have "calculate_health_score_float ops raw cleaned st =
        Inr (max 0 (min 100 (fround1 ops (spec_raw_score ops raw st))))"
    using r c
    by (simp add: calculate_health_score_float_def spec_raw_score_def spec_penalty_def
        truediv_def bind_err_def Let_def numeric_cells_def select_number_def)
  then have "calculate_health_score_float ops raw cleaned st =
        Inr (fround1 ops (clamp (spec_raw_score ops raw st) 0 100))"
    by (simp add: clamp_rounding [OF assms])
  with False show ?thesis by simp
qed

theorem health_score_formula_witness:
  "mono (fround1 exact_ops) \<and> fround1 exact_ops 0 = 0 \<and> fround1 exact_ops 100 = 100
   \<and> (\<forall>x. rounded_to_1_decimal x (fround1 exact_ops x))
   \<and> spec_raw_score exact_ops sample_raw one_duplicate = 185 / 2
   \<and> calculate_health_score_float exact_ops sample_raw sample_cleaned one_duplicate = Inr (185 / 2)
   \<and> calculate_health_score_float exact_ops empty_text_table empty_text_table zero_stats = Inr 0"
proof -
  have m: "mono (fround1 exact_ops)" by (simp add: exact_ops_def mono_py_round1)
  have f0: "fround1 exact_ops 0 = 0" by (simp add: exact_ops_def py_round1_0)
  have f100: "fround1 exact_ops 100 = 100" by (simp add: exact_ops_def py_round1_100)
  have r: "\<forall>x. rounded_to_1_decimal x (fround1 exact_ops x)"
    by (simp add: exact_ops_def py_round1_rounded)
  have s: "spec_raw_score exact_ops sample_raw one_duplicate = 185 / 2"
    by (simp add: spec_raw_score_def spec_penalty_def exact_ops_def sample_raw_def
        one_duplicate_def)
  have n: "nrows sample_raw * length (cols sample_raw) \<noteq> 0" by (simp add: sample_raw_def)
  have c: "clamp (185 / 2) 0 100 = of_int 925 / 10" by (simp add: clamp_def)
  from health_score_formula [OF m f0 f100, of sample_raw sample_cleaned one_duplicate] n r
  obtain score where a: "calculate_health_score_float exact_ops sample_raw sample_cleaned
                           one_duplicate = Inr score"
    and b: "rounded_to_1_decimal (clamp (spec_raw_score exact_ops sample_raw one_duplicate) 0 100)
              score"
    by blast
  from b have "rounded_to_1_decimal (of_int 925 / 10) score" by (simp only: s c)
  then have "score = of_int 925 / 10" by (rule rounded_to_1_decimal_unique)
  with a have v: "calculate_health_score_float exact_ops sample_raw sample_cleaned one_duplicate
                  = Inr (185 / 2)" by simp
  have e: "nrows empty_text_table * length (cols empty_text_table) = 0"
    by (simp add: empty_text_table_def)
  from health_score_formula [OF m f0 f100, of empty_text_table empty_text_table zero_stats] e
  have z: "calculate_health_score_float exact_ops empty_text_table empty_text_table zero_stats
           = Inr 0" by auto
  from m f0 f100 r s v z show ?thesis by simp
qed

text \<open>
  C7, as amended.  On an empty table (no rows or no columns) the cleansing engine
  returns metrics that are all zero and a table of the same shape and names
  without any cell changed; a table without text columns comes back as it is.
  A text column of a table without rows is offered to the date parser like any
  other, nothing in it fails to parse, and it comes back as a datetime column.
\<close>

theorem perform_etl_empty:
  assumes "wf df" and "nrows df = 0 \<or> cols df = []"
  shows "snd (run_etl parse df) = zero_stats
       \<and> fst (run_etl parse df) =
           DataFrame (nrows df) (map (\<lambda>c. (fst c, empty_converted (snd c))) (cols df))
       \<and> (list_all (\<lambda>c. \<not> is_object (snd c)) (cols df) \<longrightarrow> fst (run_etl parse df) = df)"
proof -
  have e: "clen (snd c) = 0" if "c \<in> set (cols df)" for c
    using assms that by (auto simp: wf_def list_all_iff)
  have d: "drop_duplicates df = df"
    using assms(2) by (simp add: drop_duplicates_def empty_df_def)
  have bi: "cols (before_imputation parse df) =
            map (\<lambda>c. (fst c, empty_converted (snd c))) (cols df)"
    using e by (simp add: before_imputation_def d convert_datetimes_def empty_col_facts)
  have bc: "cols (before_capping parse df) =
            map (\<lambda>c. (fst c, empty_converted (snd c))) (cols df)"
    using e
    by (simp add: cols_before_capping bi comp_def empty_col_facts clen_empty_converted)
  have cl: "fst (outlier_loop (cols (before_capping parse df)) 0) =
            map (\<lambda>c. (fst c, empty_converted (snd c))) (cols df)"
    using e by (simp add: fst_outlier_loop bc comp_def empty_col_facts clen_empty_converted)
  have m: "snd (impute_loop (cols (before_imputation parse df)) 0) = 0"
    using e by (simp add: snd_impute_loop bi comp_def empty_col_facts clen_empty_converted)
  have o: "snd (outlier_loop (cols (before_capping parse df)) 0) = 0"
    using e by (simp add: snd_outlier_loop bc comp_def empty_col_facts clen_empty_converted)
  have st: "snd (run_etl parse df) = zero_stats"
    by (simp add: run_etl_eq d m o zero_stats_def)
  have t: "fst (run_etl parse df) =
           DataFrame (nrows df) (map (\<lambda>c. (fst c, empty_converted (snd c))) (cols df))"
    by (simp add: run_etl_eq cl nrows_before_capping d)
  have u: "fst (run_etl parse df) = df" if "list_all (\<lambda>c. \<not> is_object (snd c)) (cols df)"
  proof -
    have "empty_converted (snd c) = snd c" if "c \<in> set (cols df)" for c
      using that \<open>list_all (\<lambda>c. \<not> is_object (snd c)) (cols df)\<close>
      by (cases "snd c") (auto simp: list_all_iff)
    then have "map (\<lambda>c. (fst c, empty_converted (snd c))) (cols df) = cols df"
      by (simp add: map_idI)
    with t show ?thesis by simp
  qed
  from st t u show ?thesis by simp
qed

theorem perform_etl_empty_witness:
  "wf (DataFrame 0 [(''N'', NumCol [])])
   \<and> (nrows (DataFrame 0 [(''N'', NumCol [])]) = 0 \<or> cols (DataFrame 0 [(''N'', NumCol [])]) = [])
   \<and> list_all (\<lambda>c. \<not> is_object (snd c)) (cols (DataFrame 0 [(''N'', NumCol [])]))
   \<and> run_etl never_parses (DataFrame 0 [(''N'', NumCol [])]) =
       (DataFrame 0 [(''N'', NumCol [])], zero_stats)"
proof -
  have w: "wf (DataFrame 0 [(''N'', NumCol [])])" by (simp add: wf_def)
  have e: "nrows (DataFrame 0 [(''N'', NumCol [])]) = 0 \<or> cols (DataFrame 0 [(''N'', NumCol [])]) = []"
    by simp
  from perform_etl_empty [OF w e, of never_parses] w show ?thesis
    by (simp add: prod_eq_iff)
qed

theorem perform_etl_empty_counterexample:
  "wf empty_text_table \<and> nrows empty_text_table = 0
   \<and> fst (run_etl never_parses empty_text_table) \<noteq> empty_text_table"
  by (simp add: wf_def empty_text_table_def run_etl_eq before_capping_def before_imputation_def
      drop_duplicates_def empty_df_def convert_datetimes_def to_datetime_def count_none_def)

text \<open>
  C9.  \<open>perform_etl\<close> leaves every object the store held before the call as it
  was, the caller's raw table among them: the result lives at a new reference,
  and the health scorer reads the same raw table after the call as before.
\<close>

theorem perform_etl_leaves_input:
  assumes "r < length s" and "perform_etl parse s r = (s', r', st)"
  shows "s' ! r = s ! r \<and> r' \<noteq> r \<and> r' < length s' \<and> take (length s) s' = s
       \<and> calculate_health_score (s' ! r) (s' ! r') st = calculate_health_score (s ! r) (s' ! r') st"
  using assms by (auto simp: perform_etl_eq nth_append)

theorem perform_etl_leaves_input_witness:
  "(0::nat) < length [sample_raw]
   \<and> perform_etl never_parses [sample_raw] 0 =
       ([sample_raw, sample_cleaned], 1,
        \<lparr>duplicates_removed = 1, missing_imputed = 0, outliers_handled = 0\<rparr>)
   \<and> [sample_raw, sample_cleaned] ! 0 = [sample_raw] ! 0"
proof -
  have l: "(0::nat) < length [sample_raw]" by simp
  have p: "perform_etl never_parses [sample_raw] 0 =
       ([sample_raw, sample_cleaned], 1,
        \<lparr>duplicates_removed = 1, missing_imputed = 0, outliers_handled = 0\<rparr>)"
    by code_simp
  from perform_etl_leaves_input [OF l p] l p show ?thesis by simp
qed

text \<open>
  C10.  On a raw table with at least one row and one column, with the metrics of
  a run of the cleansing engine on that table: the imputed cells are at most the
  raw cells, the removed rows at most the raw rows, the capped cells at most the
  raw numeric cells; so the three penalties are at most 40, 30 and 30, the score
  before clamping is not negative, and the lower bound of the clamp never binds.
\<close>

theorem penalties_bounded:
  assumes "wf raw" and "nrows raw \<noteq> 0" and "cols raw \<noteq> []"
    and "run_etl parse raw = (cleaned, st)"
  shows "missing_imputed st \<le> nrows raw * length (cols raw)
       \<and> duplicates_removed st \<le> nrows raw
       \<and> outliers_handled st \<le> numeric_cells raw
       \<and> missing_penalty st (nrows raw * length (cols raw)) \<le> 40
       \<and> duplicate_penalty st (nrows raw) \<le> 30
       \<and> outlier_penalty st (numeric_cells raw) \<le> 30
       \<and> 0 \<le> 100 - (missing_penalty st (nrows raw * length (cols raw))
                       + duplicate_penalty st (nrows raw)
                       + outlier_penalty st (numeric_cells raw))
       \<and> 0 \<le> py_round1 (100 - (missing_penalty st (nrows raw * length (cols raw))
                       + duplicate_penalty st (nrows raw)
                       + outlier_penalty st (numeric_cells raw)))
       \<and> calculate_health_score raw cleaned st =
           min 100 (py_round1 (100 - (missing_penalty st (nrows raw * length (cols raw))
                       + duplicate_penalty st (nrows raw)
                       + outlier_penalty st (numeric_cells raw))))"
proof -
  from assms(4) have st: "st = \<lparr>duplicates_removed = nrows raw - nrows (drop_duplicates raw),
       missing_imputed = snd (impute_loop (cols (before_imputation parse raw)) 0),
       outliers_handled = snd (outlier_loop (cols (before_capping parse raw)) 0)\<rparr>"
    by (simp add: run_etl_eq)
  have m: "missing_imputed st \<le> nrows raw * length (cols raw)"
    using missing_imputed_le [OF assms(1)] by (simp add: st)
  have d: "duplicates_removed st \<le> nrows raw" by (simp add: st)
  have o: "outliers_handled st \<le> numeric_cells raw"
    using outliers_handled_le [OF assms(1)] by (simp add: st)
  from assms(2,3) have tc: "0 < nrows raw * length (cols raw)" by simp
  have mp: "missing_penalty st (nrows raw * length (cols raw)) \<le> 40"
    unfolding missing_penalty_def using m tc by (intro penalty_le) simp_all
  have dp: "duplicate_penalty st (nrows raw) \<le> 30"
    unfolding duplicate_penalty_def using d assms(2) by (intro penalty_le) simp_all
  have op: "outlier_penalty st (numeric_cells raw) \<le> 30"
  proof (cases "numeric_cells raw > 0")
    case True
    then have "real (outliers_handled st) / real (numeric_cells raw) * 30 \<le> 30"
      using o by (intro penalty_le) simp_all
    with True show ?thesis by (simp add: outlier_penalty_def)
  next
    case False
    then show ?thesis by (simp add: outlier_penalty_def)
  qed
  let ?s = "100 - (missing_penalty st (nrows raw * length (cols raw))
                       + duplicate_penalty st (nrows raw)
                       + outlier_penalty st (numeric_cells raw))"
  from mp dp op have s: "0 \<le> ?s" by simp
  then have r: "0 \<le> py_round1 ?s" using py_round1_mono [of 0 ?s] by (simp add: py_round1_0)
  from r assms(2,3) have c: "calculate_health_score raw cleaned st = min 100 (py_round1 ?s)"
    by (simp add: calculate_health_score_def Let_def)
  from m d o mp dp op s r c show ?thesis by simp
qed

theorem penalties_bounded_witness:
  "wf sample_raw \<and> nrows sample_raw \<noteq> 0 \<and> cols sample_raw \<noteq> []
   \<and> run_etl never_parses sample_raw =
       (sample_cleaned, \<lparr>duplicates_removed = 1, missing_imputed = 0, outliers_handled = 0\<rparr>)
   \<and> duplicate_penalty \<lparr>duplicates_removed = 1, missing_imputed = 0, outliers_handled = 0\<rparr>
        (nrows sample_raw) \<le> 30
   \<and> calculate_health_score sample_raw sample_cleaned
        \<lparr>duplicates_removed = 1, missing_imputed = 0, outliers_handled = 0\<rparr> =
       min 100 (py_round1 (100 -
         (missing_penalty \<lparr>duplicates_removed = 1, missing_imputed = 0, outliers_handled = 0\<rparr>
            (nrows sample_raw * length (cols sample_raw))
          + duplicate_penalty \<lparr>duplicates_removed = 1, missing_imputed = 0, outliers_handled = 0\<rparr>
              (nrows sample_raw)
          + outlier_penalty \<lparr>duplicates_removed = 1, missing_imputed = 0, outliers_handled = 0\<rparr>
              (numeric_cells sample_raw))))"
proof -
  have n: "nrows sample_raw \<noteq> 0" and c: "cols sample_raw \<noteq> []"
    by (simp_all add: sample_raw_def)
  from penalties_bounded [OF wf_sample_raw n c run_etl_sample] wf_sample_raw n c run_etl_sample
  show ?thesis by simp
qed







text \<open>
  C6, as amended.  When a text or datetime column with missing cells holds at
  least one value, the imputation loop fills its missing cells, wherever the
  column stands in the frame, with the least of its most frequent values in the
  order of the values (\<open>mode()\<close> returns the modes sorted and the source takes
  the first); this need not be the one met first in row order.
\<close>

theorem mode_fill_least:
  assumes "i < length cs"
  shows "(cs ! i = (n, CatCol xs) \<and> None \<in> set xs \<and> dropna xs \<noteq> [] \<longrightarrow>
            fst (impute_loop cs k) ! i
            = (n, CatCol (fillna (Some (Min (most_frequent (dropna xs)))) xs)))
       \<and> (cs ! i = (n, TimeCol ts) \<and> None \<in> set ts \<and> dropna ts \<noteq> [] \<longrightarrow>
            fst (impute_loop cs k) ! i
            = (n, TimeCol (fillna (Some (Min (most_frequent (dropna ts)))) ts)))"
  using assms
  by (simp add: fst_impute_loop count_none_pos fill_col_least fill_col_least_time
      del: fill_col.simps)

theorem mode_fill_least_witness:
  "(0::nat) < length (cols tied_table)
   \<and> cols tied_table ! 0 = (''C'', CatCol tied_column)
   \<and> None \<in> set tied_column \<and> dropna tied_column \<noteq> []
   \<and> None \<in> set tied_dates \<and> dropna tied_dates \<noteq> []
   \<and> Min (most_frequent (dropna tied_column)) = ''a''
   \<and> fst (impute_loop (cols tied_table) 0) ! 0
       = (''C'', CatCol [Some ''b'', Some ''a'', Some ''a''])
   \<and> fst (impute_loop [(''D'', TimeCol tied_dates)] 0) ! 0
       = (''D'', TimeCol [Some 20, Some 10, Some 10])"
proof -
  have l: "(0::nat) < length (cols tied_table)" by (simp add: tied_table_def)
  have c: "cols tied_table ! 0 = (''C'', CatCol tied_column)" by (simp add: tied_table_def)
  have a: "None \<in> set tied_column" "dropna tied_column \<noteq> []"
    by (simp_all add: tied_column_def)
  have b: "None \<in> set tied_dates" "dropna tied_dates \<noteq> []"
    by (simp_all add: tied_dates_def)
  have m: "Min (most_frequent (dropna tied_column)) = ''a''" by code_simp
  have t: "Min (most_frequent (dropna tied_dates)) = 10" by code_simp
  from mode_fill_least [OF l, where n = "''C''" and xs = tied_column and k = 0] c a
  have "fst (impute_loop (cols tied_table) 0) ! 0
        = (''C'', CatCol (fillna (Some (Min (most_frequent (dropna tied_column)))) tied_column))"
    by blast
  then have x: "fst (impute_loop (cols tied_table) 0) ! 0
        = (''C'', CatCol [Some ''b'', Some ''a'', Some ''a''])"
    by (simp only: m) (simp add: fillna_def tied_column_def)
  have l1: "(0::nat) < length [(''D'', TimeCol tied_dates)]" by simp
  from mode_fill_least [OF l1, where n = "''D''" and ts = tied_dates and k = 0] b
  have "fst (impute_loop [(''D'', TimeCol tied_dates)] 0) ! 0
        = (''D'', TimeCol (fillna (Some (Min (most_frequent (dropna tied_dates)))) tied_dates))"
    by simp
  then have y: "fst (impute_loop [(''D'', TimeCol tied_dates)] 0) ! 0
        = (''D'', TimeCol [Some 20, Some 10, Some 10])"
    by (simp only: t) (simp add: fillna_def tied_dates_def)
  from l c a b m x y show ?thesis by simp
qed

theorem mode_fill_least_counterexample:
  "wf tied_table
   \<and> cols (fst (run_etl never_parses tied_table)) ! 0
       = (''C'', CatCol [Some ''b'', Some ''a'', Some ''a''])
   \<and> first_mode tied_column = Some ''b''
   \<and> fst (impute_loop [(''C'', CatCol tied_column)] 0)
       \<noteq> [(''C'', CatCol (fillna (first_mode tied_column) tied_column))]"
  by code_simp

text \<open>
  C8.  The statistics engine has no failing path.  Without numeric columns it
  returns the source's \<open>None\<close>, the signal for no numeric data; otherwise it
  returns one row for each numeric column, in column order, and on a column
  without spread the skewness and the kurtosis are scipy's fixed values for such
  data, not an exception.
\<close>

theorem descriptive_stats_total:
  "(number_cols df = [] \<longrightarrow> generate_descriptive_stats flat df = None)
   \<and> (number_cols df \<noteq> [] \<longrightarrow>
        (\<exists>rows. generate_descriptive_stats flat df = Some rows
           \<and> length rows = length (number_cols df)
           \<and> map stat_column rows = map fst (filter (\<lambda>c. is_number (snd c)) (cols df))
           \<and> (\<forall>i<length rows. flat_column (snd (number_cols df ! i)) \<longrightarrow>
                  stat_skewness (rows ! i) = flat_skew flat
                  \<and> stat_kurtosis (rows ! i) = flat_kurtosis flat)))"
proof -
  have a: "generate_descriptive_stats flat df = None" if "number_cols df = []"
    using that by (simp add: generate_descriptive_stats_def)
  have b: "\<exists>rows. generate_descriptive_stats flat df = Some rows
           \<and> length rows = length (number_cols df)
           \<and> map stat_column rows = map fst (filter (\<lambda>c. is_number (snd c)) (cols df))
           \<and> (\<forall>i<length rows. flat_column (snd (number_cols df ! i)) \<longrightarrow>
                  stat_skewness (rows ! i) = flat_skew flat
                  \<and> stat_kurtosis (rows ! i) = flat_kurtosis flat)"
    if "number_cols df \<noteq> []"
  proof -
    let ?rows = "map (describe_col flat) (number_cols df)"
    from that have r: "generate_descriptive_stats flat df = Some ?rows"
      by (simp add: generate_descriptive_stats_def)
    have n: "map stat_column ?rows = map fst (filter (\<lambda>c. is_number (snd c)) (cols df))"
      by (simp add: comp_def describe_col_def number_cols_filter [symmetric])
    have f: "\<forall>i<length ?rows. flat_column (snd (number_cols df ! i)) \<longrightarrow>
                  stat_skewness (?rows ! i) = flat_skew flat
                  \<and> stat_kurtosis (?rows ! i) = flat_kurtosis flat"
      by (simp add: describe_col_def flat_column_skew)
    from r n f show ?thesis by simp
  qed
  from a b show ?thesis by blast
qed

theorem descriptive_stats_total_witness:
  "number_cols text_table = []
   \<and> generate_descriptive_stats modern_scipy text_table = None
   \<and> number_cols flat_table \<noteq> []
   \<and> flat_column (snd (number_cols flat_table ! 0))
   \<and> map_option (map stat_column) (generate_descriptive_stats modern_scipy flat_table)
       = Some [''A'', ''B'']
   \<and> map_option (\<lambda>rows. stat_skewness (rows ! 0))
         (generate_descriptive_stats modern_scipy flat_table) = Some None"
proof -
  have t: "number_cols text_table = []" by (simp add: number_cols_def text_table_def)
  from descriptive_stats_total [of text_table modern_scipy] t
  have n: "generate_descriptive_stats modern_scipy text_table = None" by blast
  have f: "number_cols flat_table = [(''A'', [Some 3, Some 3]), (''B'', [Some 1, Some 2])]"
    by (simp add: number_cols_def flat_table_def)
  then have ne: "number_cols flat_table \<noteq> []" by simp
  from f have fl: "flat_column (snd (number_cols flat_table ! 0))"
    by (simp add: flat_column_def)
  from descriptive_stats_total [of flat_table modern_scipy] ne
  obtain rows where r: "generate_descriptive_stats modern_scipy flat_table = Some rows"
    and l: "length rows = length (number_cols flat_table)"
    and c: "map stat_column rows
            = map fst (filter (\<lambda>c. is_number (snd c)) (cols flat_table))"
    and s: "\<forall>i<length rows. flat_column (snd (number_cols flat_table ! i)) \<longrightarrow>
              stat_skewness (rows ! i) = flat_skew modern_scipy
              \<and> stat_kurtosis (rows ! i) = flat_kurtosis modern_scipy"
    by blast
  from c have c': "map stat_column rows = [''A'', ''B'']" by (simp add: flat_table_def)
  from l f have "0 < length rows" by simp
  with s fl have "stat_skewness (rows ! 0) = flat_skew modern_scipy" by blast
  then have s': "stat_skewness (rows ! 0) = None" by (simp add: modern_scipy_def)
  from t n ne fl r c' s' show ?thesis by simp
qed

text \<open>
  C4.  The selector does raise on a cleaned table: with one row and one numeric
  column the variance of the column is NaN, \<open>idxmax\<close> finds no label, and the
  histogram call fails with \<open>ValueError\<close>.  The guards of the source test for
  the presence of numeric columns and rows, not for a defined variance.
\<close>

theorem selector_raises_on_single_row:
  "wf single_row_table
   \<and> run_etl never_parses single_row_table = (single_row_table, zero_stats)
   \<and> generate_visuals single_row_table = Inl ValueError"
proof -
  have a: "wf single_row_table \<and> run_etl never_parses single_row_table = (single_row_table, zero_stats)"
    by code_simp
  have b: "generate_visuals single_row_table = Inl ValueError"
    by (simp add: selector_defs single_row_table_def)
  from a b show ?thesis by simp
qed

text \<open>
  C5.  The source keeps the entries of the absolute correlation matrix that are
  below 1.  This removes the diagonal, and with it every pair of distinct
  columns that are perfectly correlated: for the columns 1, 2, 3 and 2, 4, 6
  nothing is left, and neither the scatter plot nor the contour plot is made.
\<close>

theorem perfect_pair_not_selected:
  "wf perfect_pair_table
   \<and> run_etl never_parses perfect_pair_table = (perfect_pair_table, zero_stats)
   \<and> corr [Some 1, Some 2, Some 3] [Some 2, Some 4, Some 6] = Some 1
   \<and> corr_unstacked perfect_pair_table = Some []
   \<and> generate_visuals perfect_pair_table
       = Inr [Figure Heatmap [''A'', ''B''], Figure Histogram [''B''],
              Figure Box [''A'', ''B''], Figure Violin [''B''], Figure Line [''A'']]"
proof -
  have a: "wf perfect_pair_table
           \<and> run_etl never_parses perfect_pair_table = (perfect_pair_table, zero_stats)"
    by code_simp
  have b: "corr [Some 1, Some 2, Some 3] [Some 2, Some 4, Some 6] = Some 1"
    by (simp add: corr_def Let_def power2_eq_square sqrt_16)
  have c: "corr_unstacked perfect_pair_table = Some []"
    by (simp add: selector_defs perfect_pair_table_def power2_eq_square sqrt_16 sqrt_64)
  have d: "generate_visuals perfect_pair_table
       = Inr [Figure Heatmap [''A'', ''B''], Figure Histogram [''B''],
              Figure Box [''A'', ''B''], Figure Violin [''B''], Figure Line [''A'']]"
    by (simp add: selector_defs perfect_pair_table_def power2_eq_square sqrt_16 sqrt_64)
  from a b c d show ?thesis by simp
qed

end
